theory Spec2Isabelle
  imports Complex_Main
begin

section \<open>Cell text, Python string helpers\<close>

text \<open>
  A cell of the fee table is a Python \<^verbatim>\<open>str\<close> or the missing value (NaN), on which
  \<^verbatim>\<open>pd.isna\<close> is true. A cell is modelled as a \<^typ>\<open>string option\<close> with \<open>None\<close> for the
  missing value; the characters are the code points U+0000 to U+00FF. Python floats are
  modelled as exact rationals, with the value \<^verbatim>\<open>float('inf')\<close> as a constructor of its own.
\<close>

datatype error = ValueError | IndexError | ZeroDivisionError

definition is_digit :: "char \<Rightarrow> bool" where
  \<comment> \<open>\<^verbatim>\<open>\d\<close>: below U+0100 the decimal digits are 0 to 9\<close>
  "is_digit c = (c \<in> set ''0123456789'')"

definition is_space :: "char \<Rightarrow> bool" where
  \<comment> \<open>\<^verbatim>\<open>\s\<close> and \<^verbatim>\<open>str.isspace\<close> below U+0100\<close>
  "is_space c = ((of_char c :: nat) \<in> {9, 10, 11, 12, 13, 28, 29, 30, 31, 32, 133, 160})"

definition lower_char :: "char \<Rightarrow> char" where
  "lower_char c = (let n = (of_char c :: nat) in
     if (65 \<le> n \<and> n \<le> 90) \<or> (192 \<le> n \<and> n \<le> 222 \<and> n \<noteq> 215)
     then char_of (n + 32) else c)"

definition py_lower :: "string \<Rightarrow> string" where
  "py_lower s = map lower_char s"

definition py_strip :: "string \<Rightarrow> string" where
  "py_strip s = rev (dropWhile is_space (rev (dropWhile is_space s)))"

definition remove_commas :: "string \<Rightarrow> string" where
  \<comment> \<open>\<^verbatim>\<open>.replace(',', '')\<close>\<close>
  "remove_commas s = filter (\<lambda>c. c \<noteq> CHR '','') s"

definition digit_val :: "char \<Rightarrow> nat" where
  "digit_val c = of_char c - 48"

definition digits_val :: "string \<Rightarrow> nat" where
  "digits_val ds = foldl (\<lambda>a c. 10 * a + digit_val c) 0 ds"

definition py_float :: "string \<Rightarrow> rat option" where
  \<comment> \<open>\<^verbatim>\<open>float(s)\<close> on a text of digits with at most one point; \<open>None\<close> is ValueError.
      The texts converted by the functions below are captures of the number patterns
      with the commas removed, which hold digits and points only.\<close>
  "py_float s =
     (let ip = takeWhile is_digit s; rest = dropWhile is_digit s in
      case rest of
        [] \<Rightarrow> if ip = [] then None else Some (of_nat (digits_val ip))
      | d # fp \<Rightarrow>
          if d = CHR ''.'' \<and> list_all is_digit fp \<and> (ip \<noteq> [] \<or> fp \<noteq> [])
          then Some (of_nat (digits_val ip) + of_nat (digits_val fp) / 10 ^ length fp)
          else None)"

section \<open>The regular expressions of the source\<close>

text \<open>
  The patterns of the source use literal characters, an optional character, and the
  greedy repetitions \<^verbatim>\<open>*\<close> and \<^verbatim>\<open>+\<close> of the classes \<^verbatim>\<open>\d\<close> and \<^verbatim>\<open>\s\<close>, with capture
  groups. A pattern is a list of items, \<open>Mark\<close> standing for a parenthesis of a group.
  \<open>rmatch\<close> is the backtracking matcher of \<^verbatim>\<open>re\<close> anchored at the start of the text: a
  greedy item first tries to consume, and gives the character back when the rest of the
  pattern fails. The result lists the text remaining at each mark, then the text
  remaining after the match.
\<close>

datatype cls = Digit | Space

datatype item = Lit char | Opt char | Star cls | Plus cls | Mark

fun in_cls :: "cls \<Rightarrow> char \<Rightarrow> bool" where
  "in_cls Digit c = is_digit c"
| "in_cls Space c = is_space c"

fun rmatch :: "item list \<Rightarrow> string \<Rightarrow> string list option" where
  "rmatch [] s = Some [s]"
| "rmatch (Mark # p) s = (case rmatch p s of None \<Rightarrow> None | Some r \<Rightarrow> Some (s # r))"
| "rmatch (Lit c # p) [] = None"
| "rmatch (Lit c # p) (x # xs) = (if x = c then rmatch p xs else None)"
| "rmatch (Opt c # p) [] = rmatch p []"
| "rmatch (Opt c # p) (x # xs) =
     (if x = c
      then (case rmatch p xs of Some r \<Rightarrow> Some r | None \<Rightarrow> rmatch p (x # xs))
      else rmatch p (x # xs))"
| "rmatch (Star k # p) [] = rmatch p []"
| "rmatch (Star k # p) (x # xs) =
     (if in_cls k x
      then (case rmatch (Star k # p) xs of Some r \<Rightarrow> Some r | None \<Rightarrow> rmatch p (x # xs))
      else rmatch p (x # xs))"
| "rmatch (Plus k # p) [] = None"
| "rmatch (Plus k # p) (x # xs) = (if in_cls k x then rmatch (Star k # p) xs else None)"

fun re_search :: "item list \<Rightarrow> string \<Rightarrow> string list option" where
  \<comment> \<open>\<^verbatim>\<open>re.search\<close>: the match at the leftmost position that has one\<close>
  "re_search p [] = rmatch p []"
| "re_search p (x # xs) =
     (case rmatch p (x # xs) of Some r \<Rightarrow> Some r | None \<Rightarrow> re_search p xs)"

definition between :: "string \<Rightarrow> string \<Rightarrow> string" where
  "between a b = take (length a - length b) a"

definition group :: "nat \<Rightarrow> string list \<Rightarrow> string" where
  \<comment> \<open>\<^verbatim>\<open>match.group(n)\<close>, for \<open>n\<close> from 1: the text between the marks of the n-th group\<close>
  "group n r = (case drop (2 * (n - 1)) r of a # b # _ \<Rightarrow> between a b | _ \<Rightarrow> [])"

definition amount_pat :: "item list" where
  \<comment> \<open>\<^verbatim>\<open>(\d+,?\d*\.?\d*)\<close>\<close>
  "amount_pat = [Mark, Plus Digit, Opt CHR '','', Star Digit, Opt CHR ''.'', Star Digit, Mark]"

definition number_pat :: "item list" where
  \<comment> \<open>\<^verbatim>\<open>(\d+\.?\d*)\<close>\<close>
  "number_pat = [Mark, Plus Digit, Opt CHR ''.'', Star Digit, Mark]"

definition pct_pat :: "item list" where
  \<comment> \<open>\<^verbatim>\<open>(\d+\.?\d*)%\<close>\<close>
  "pct_pat = number_pat @ [Lit CHR ''%'']"

definition dollar_pat :: "item list" where
  \<comment> \<open>\<^verbatim>\<open>\$(\d+,?\d*\.?\d*)\<close>\<close>
  "dollar_pat = Lit CHR ''$'' # amount_pat"

definition range_pat :: "item list" where
  \<comment> \<open>\<^verbatim>\<open>\$(\d+,?\d*\.?\d*)\s*-\s*\$(\d+,?\d*\.?\d*)\<close>\<close>
  "range_pat = dollar_pat @ [Star Space, Lit CHR ''-'', Star Space] @ dollar_pat"

definition plus_pat :: "item list" where
  \<comment> \<open>\<^verbatim>\<open>\$(\d+,?\d*\.?\d*)\+\<close>\<close>
  "plus_pat = dollar_pat @ [Lit CHR ''+'']"

section \<open>Field Normalizer\<close>

text \<open>
  \<^verbatim>\<open>process_flat_fee\<close>, \<^verbatim>\<open>process_minimum_investment\<close> and
  \<^verbatim>\<open>process_negotiable_threshold\<close> of \<^verbatim>\<open>enhanced_fee_analysis.py\<close>. Each returns the
  presence flag (0 or 1) and the value, \<open>None\<close> for Python's \<^verbatim>\<open>None\<close>.
\<close>

definition to_float :: "string \<Rightarrow> error + rat" where
  "to_float s = (case py_float s of None \<Rightarrow> Inl ValueError | Some v \<Rightarrow> Inr v)"

definition present_with :: "string \<Rightarrow> error + (nat \<times> rat option)" where
  \<comment> \<open>\<^verbatim>\<open>return 1, float(amount)\<close>\<close>
  "present_with amount = (case to_float amount of Inl e \<Rightarrow> Inl e | Inr v \<Rightarrow> Inr (1, Some v))"

definition process_flat_fee :: "string option \<Rightarrow> error + (nat \<times> rat option)" where
  "process_flat_fee fee_str =
     (case fee_str of
        None \<Rightarrow> Inr (0, None)
      | Some s \<Rightarrow>
          if py_lower s = ''no'' \<or> py_strip s = [] then Inr (0, None)
          else (case re_search pct_pat s of
            Some m \<Rightarrow> present_with (group 1 m)
          | None \<Rightarrow> (case re_search dollar_pat s of
              Some m \<Rightarrow> present_with (remove_commas (group 1 m))
            | None \<Rightarrow>
                if py_lower s \<in> set [''yes'', ''y'', ''true''] then Inr (1, None)
                else (case re_search number_pat s of
                  Some m \<Rightarrow> present_with (group 1 m)
                | None \<Rightarrow> Inr (1, None)))))"

definition process_minimum_investment :: "string option \<Rightarrow> error + (nat \<times> rat option)" where
  "process_minimum_investment min_inv_str =
     (case min_inv_str of
        None \<Rightarrow> Inr (0, None)
      | Some s \<Rightarrow>
          if py_lower s \<in> set [''no'', ''n/a''] \<or> py_strip s = [] then Inr (0, None)
          else (case re_search dollar_pat s of
            Some m \<Rightarrow> present_with (remove_commas (group 1 m))
          | None \<Rightarrow> (case re_search amount_pat s of
              Some m \<Rightarrow> present_with (remove_commas (group 1 m))
            | None \<Rightarrow>
                if py_lower s \<in> set [''yes'', ''y'', ''true''] then Inr (1, None)
                else Inr (0, None))))"

definition process_negotiable_threshold :: "string option \<Rightarrow> error + (nat \<times> rat option)" where
  "process_negotiable_threshold neg_thresh_str =
     (case neg_thresh_str of
        None \<Rightarrow> Inr (0, None)
      | Some s \<Rightarrow>
          if py_lower s \<in> set [''no'', ''n/a''] \<or> py_strip s = [] then Inr (0, None)
          else (case re_search dollar_pat s of
            Some m \<Rightarrow> present_with (remove_commas (group 1 m))
          | None \<Rightarrow> (case re_search amount_pat s of
              Some m \<Rightarrow> present_with (remove_commas (group 1 m))
            | None \<Rightarrow> Inr (0, None))))"

section \<open>Range Extractor\<close>

datatype bound = Fin rat | PInf

type_synonym extracted = "rat option \<times> bound option \<times> rat option"

definition extract_bounds :: "string \<Rightarrow> error + (rat option \<times> bound option)" where
  \<comment> \<open>the bounded range, else the open range, else any dollar amount\<close>
  "extract_bounds s =
     (case re_search range_pat s of
        Some m \<Rightarrow>
          (case to_float (remove_commas (group 1 m)) of
             Inl e \<Rightarrow> Inl e
           | Inr lower_bound \<Rightarrow>
               (case to_float (remove_commas (group 2 m)) of
                  Inl e \<Rightarrow> Inl e
                | Inr upper_bound \<Rightarrow> Inr (Some lower_bound, Some (Fin upper_bound))))
      | None \<Rightarrow>
          (case re_search plus_pat s of
             Some m \<Rightarrow>
               (case to_float (remove_commas (group 1 m)) of
                  Inl e \<Rightarrow> Inl e
                | Inr lower_bound \<Rightarrow> Inr (Some lower_bound, Some PInf))
           | None \<Rightarrow>
               (case re_search dollar_pat s of
                  Some m \<Rightarrow>
                    (case to_float (remove_commas (group 1 m)) of
                       Inl e \<Rightarrow> Inl e
                     | Inr lower_bound \<Rightarrow> Inr (Some lower_bound, None))
                | None \<Rightarrow> Inr (None, None))))"

definition extract_pct :: "string \<Rightarrow> error + rat option" where
  "extract_pct s =
     (case re_search pct_pat s of
        Some m \<Rightarrow> (case to_float (group 1 m) of Inl e \<Rightarrow> Inl e | Inr v \<Rightarrow> Inr (Some v))
      | None \<Rightarrow> Inr None)"

definition extract_fee_range :: "string option \<Rightarrow> error + extracted" where
  \<comment> \<open>\<^verbatim>\<open>enhanced_fee_analysis.py\<close>: the bounds first, then the percentage\<close>
  "extract_fee_range fee_range_str =
     (case fee_range_str of
        None \<Rightarrow> Inr (None, None, None)
      | Some s \<Rightarrow>
          if py_lower s = ''n/a'' \<or> py_strip s = [] then Inr (None, None, None)
          else (case extract_bounds s of
            Inl e \<Rightarrow> Inl e
          | Inr (lower_bound, upper_bound) \<Rightarrow>
              (case extract_pct s of
                 Inl e \<Rightarrow> Inl e
               | Inr fee_percentage \<Rightarrow> Inr (lower_bound, upper_bound, fee_percentage))))"

definition extract_fee_range_step3 :: "string option \<Rightarrow> error + extracted" where
  \<comment> \<open>\<^verbatim>\<open>enhanced_fee_analysis_step3.py\<close>: the percentage first, then the bounds\<close>
  "extract_fee_range_step3 fee_range_str =
     (case fee_range_str of
        None \<Rightarrow> Inr (None, None, None)
      | Some s \<Rightarrow>
          if s = [] \<or> py_lower s \<in> set [''n/a'', ''na'', ''-1''] then Inr (None, None, None)
          else (case extract_pct s of
            Inl e \<Rightarrow> Inl e
          | Inr fee_percentage \<Rightarrow>
              (case extract_bounds s of
                 Inl e \<Rightarrow> Inl e
               | Inr (lower_bound, upper_bound) \<Rightarrow>
                   Inr (lower_bound, upper_bound, fee_percentage))))"

section \<open>Product Segmenter\<close>

text \<open>
  The order of Python floats on the values that occur here: the finite values in their
  order, below \<^verbatim>\<open>float('inf')\<close>.
\<close>

instantiation bound :: linorder
begin

fun less_eq_bound :: "bound \<Rightarrow> bound \<Rightarrow> bool" where
  "less_eq_bound (Fin a) (Fin b) = (a \<le> b)"
| "less_eq_bound (Fin a) PInf = True"
| "less_eq_bound PInf (Fin b) = False"
| "less_eq_bound PInf PInf = True"

definition less_bound :: "bound \<Rightarrow> bound \<Rightarrow> bool" where
  "less_bound x y = (x \<le> y \<and> \<not> y \<le> (x :: bound))"

instance
proof
  fix x y z :: bound
  show "(x < y) = (x \<le> y \<and> \<not> y \<le> x)" by (simp add: less_bound_def)
  show "x \<le> x" by (cases x) simp_all
  show "x \<le> y \<Longrightarrow> y \<le> z \<Longrightarrow> x \<le> z" by (cases x; cases y; cases z) simp_all
  show "x \<le> y \<Longrightarrow> y \<le> x \<Longrightarrow> x = y" by (cases x; cases y) simp_all
  show "x \<le> y \<or> y \<le> x" by (cases x; cases y) auto
qed

end

text \<open>
  A tier is the dictionary with the keys \<^verbatim>\<open>lower\<close>, \<^verbatim>\<open>upper\<close>, \<^verbatim>\<open>fee\<close>; the step-3 script
  stores a fourth key \<^verbatim>\<open>original_index\<close> in it, the position of the column, which is
  \<open>tier_index\<close> here (\<open>None\<close> where the key is absent). A product is the dictionary of
  type \<^verbatim>\<open>flat\<close> (keys \<^verbatim>\<open>fee\<close>, \<^verbatim>\<open>original_index\<close>) or of type \<^verbatim>\<open>tiered\<close> (keys \<^verbatim>\<open>tiers\<close>,
  \<^verbatim>\<open>original_index\<close>). The key \<^verbatim>\<open>first_tier_fee\<close> that the source stores in every product
  before sorting is the function \<open>first_tier_fee\<close> of the product.
\<close>

record tier =
  lower :: rat
  upper :: bound
  fee :: rat
  tier_index :: "nat option"

datatype product =
  Flat (flat_fee: "rat option") (original_index: int)
| Tiered (tiers: "tier list") (original_index: int)

record row =
  has_flat_fee :: nat
  flat_fee_value :: "rat option"
  thresholds :: "string option list"

definition mk_tier :: "rat \<Rightarrow> bound option \<Rightarrow> rat \<Rightarrow> nat option \<Rightarrow> tier" where
  \<comment> \<open>\<^verbatim>\<open>'upper': upper if upper is not None else float('inf')\<close>\<close>
  "mk_tier lo up f idx =
     \<lparr>lower = lo, upper = (case up of None \<Rightarrow> PInf | Some u \<Rightarrow> u), fee = f, tier_index = idx\<rparr>"

definition first_tier_fee :: "product \<Rightarrow> bound option" where
  "first_tier_fee p =
     (case p of
        Tiered ts i \<Rightarrow> (case ts of t # _ \<Rightarrow> Some (Fin (fee t)) | [] \<Rightarrow> Some PInf)
      | Flat v i \<Rightarrow> map_option Fin v)"

definition product_key :: "product \<Rightarrow> bound" where
  \<comment> \<open>\<^verbatim>\<open>x['first_tier_fee'] if x['first_tier_fee'] is not None else float('inf')\<close>\<close>
  "product_key p = (case first_tier_fee p of None \<Rightarrow> PInf | Some k \<Rightarrow> k)"

subsection \<open>\<^verbatim>\<open>identify_products\<close> of \<^verbatim>\<open>enhanced_fee_analysis.py\<close>\<close>

definition continues :: "bound \<Rightarrow> rat \<Rightarrow> bool" where
  \<comment> \<open>\<^verbatim>\<open>abs(last_tier['upper'] - lower) < 0.01 or last_tier['upper'] == float('inf')\<close>\<close>
  "continues last_upper lo = (case last_upper of Fin u \<Rightarrow> \<bar>u - lo\<bar> < 1 / 100 | PInf \<Rightarrow> True)"

fun append_tier :: "product list \<Rightarrow> rat \<Rightarrow> bound option \<Rightarrow> rat \<Rightarrow> error + product list option" where
  \<comment> \<open>the loop over the products: the first tiered product that the range continues
      receives the tier (\<open>Some\<close>); \<open>None\<close> when the loop ends with \<^verbatim>\<open>new_product\<close> still true\<close>
  "append_tier [] lo up f = Inr None"
| "append_tier (Flat v i # ps) lo up f =
     (case append_tier ps lo up f of
        Inl e \<Rightarrow> Inl e
      | Inr None \<Rightarrow> Inr None
      | Inr (Some ps') \<Rightarrow> Inr (Some (Flat v i # ps')))"
| "append_tier (Tiered [] i # ps) lo up f = Inl IndexError"
| "append_tier (Tiered (t # ts) i # ps) lo up f =
     (if continues (upper (last (t # ts))) lo
      then Inr (Some (Tiered ((t # ts) @ [mk_tier lo up f None]) i # ps))
      else (case append_tier ps lo up f of
        Inl e \<Rightarrow> Inl e
      | Inr None \<Rightarrow> Inr None
      | Inr (Some ps') \<Rightarrow> Inr (Some (Tiered (t # ts) i # ps'))))"

definition add_range :: "product list \<Rightarrow> extracted \<Rightarrow> error + product list" where
  \<comment> \<open>the body of the column loop, after the extraction\<close>
  "add_range products r =
     (case r of
        (Some lo, up, Some f) \<Rightarrow>
          (case append_tier products lo up f of
             Inl e \<Rightarrow> Inl e
           | Inr (Some ps') \<Rightarrow> Inr ps'
           | Inr None \<Rightarrow>
               Inr (products @ [Tiered [mk_tier lo up f None] (int (length products))]))
      | _ \<Rightarrow> Inr products)"

fun add_ranges :: "product list \<Rightarrow> extracted option list \<Rightarrow> error + product list" where
  \<comment> \<open>the column loop; \<open>None\<close> is a column that is skipped\<close>
  "add_ranges products [] = Inr products"
| "add_ranges products (None # cols) = add_ranges products cols"
| "add_ranges products (Some r # cols) =
     (case add_range products r of Inl e \<Rightarrow> Inl e | Inr ps' \<Rightarrow> add_ranges ps' cols)"

definition identify_products_ranges ::
    "nat \<Rightarrow> rat option \<Rightarrow> extracted option list \<Rightarrow> error + (nat \<times> product list)" where
  \<comment> \<open>\<^verbatim>\<open>identify_products\<close> on the extracted ranges of the columns\<close>
  "identify_products_ranges has_flat flat_value cols =
     (case add_ranges (if has_flat = 1 then [Flat flat_value (- 1)] else []) cols of
        Inl e \<Rightarrow> Inl e
      | Inr products \<Rightarrow> Inr (length products, sort_key product_key products))"

fun extract_columns :: "string option list \<Rightarrow> error + extracted option list" where
  \<comment> \<open>a column is read when its cell is not missing and is not \<^verbatim>\<open>'N/A'\<close>\<close>
  "extract_columns [] = Inr []"
| "extract_columns (c # cs) =
     (if c = None \<or> c = Some ''N/A''
      then (case extract_columns cs of Inl e \<Rightarrow> Inl e | Inr rs \<Rightarrow> Inr (None # rs))
      else (case extract_fee_range c of
        Inl e \<Rightarrow> Inl e
      | Inr r \<Rightarrow> (case extract_columns cs of Inl e \<Rightarrow> Inl e | Inr rs \<Rightarrow> Inr (Some r # rs))))"

definition identify_products :: "row \<Rightarrow> error + (nat \<times> product list)" where
  \<comment> \<open>the loop reads the eight columns \<^verbatim>\<open>annual_fee_range_1\<close> to \<^verbatim>\<open>annual_fee_range_8\<close>\<close>
  "identify_products r =
     (case extract_columns (take 8 (thresholds r)) of
        Inl e \<Rightarrow> Inl e
      | Inr cols \<Rightarrow> identify_products_ranges (has_flat_fee r) (flat_fee_value r) cols)"

subsection \<open>\<^verbatim>\<open>identify_products\<close> of \<^verbatim>\<open>enhanced_fee_analysis_step3.py\<close>\<close>

definition continues_step3 :: "rat \<Rightarrow> bound \<Rightarrow> bool" where
  \<comment> \<open>\<^verbatim>\<open>abs(fee_range['lower'] - last_upper) < 0.01 or last_upper == float('inf')\<close>\<close>
  "continues_step3 lo last_upper =
     (case last_upper of Fin u \<Rightarrow> \<bar>lo - u\<bar> < 1 / 100 | PInf \<Rightarrow> True)"

fun collect_ranges :: "nat \<Rightarrow> extracted option list \<Rightarrow> tier list" where
  \<comment> \<open>the valid fee ranges, each with the position of its column, counted from 0\<close>
  "collect_ranges i [] = []"
| "collect_ranges i (Some (Some lo, up, Some f) # cols) =
     mk_tier lo up f (Some i) # collect_ranges (Suc i) cols"
| "collect_ranges i (_ # cols) = collect_ranges (Suc i) cols"

fun group_ranges :: "product list \<Rightarrow> tier list \<Rightarrow> int \<Rightarrow> bound \<Rightarrow> tier list \<Rightarrow> product list" where
  \<comment> \<open>\<open>done\<close> holds the products before the current one, \<open>cur\<close> and \<open>idx\<close> are the tiers
      and the index of the current product, which is the last element of \<^verbatim>\<open>products\<close>\<close>
  "group_ranges done cur idx last_upper [] = done @ [Tiered cur idx]"
| "group_ranges done cur idx last_upper (r # rs) =
     (if continues_step3 (lower r) last_upper
      then group_ranges done (cur @ [r]) idx (upper r) rs
      else group_ranges (done @ [Tiered cur idx]) [r] (int (length done + 1)) (upper r) rs)"

definition identify_products_step3_ranges ::
    "nat \<Rightarrow> rat option \<Rightarrow> extracted option list \<Rightarrow> nat \<times> product list" where
  "identify_products_step3_ranges has_flat flat_value cols =
     (let flat = (if has_flat = 1 \<and> flat_value \<noteq> None then [Flat flat_value (- 1)] else []);
          products = (case sort_key lower (collect_ranges 0 cols) of
                        [] \<Rightarrow> flat
                      | r # rs \<Rightarrow> group_ranges flat [r] 0 (upper r) rs)
      in (length products, sort_key product_key products))"

fun extract_columns_step3 :: "string option list \<Rightarrow> error + extracted option list" where
  "extract_columns_step3 [] = Inr []"
| "extract_columns_step3 (c # cs) =
     (if c = None
      then (case extract_columns_step3 cs of Inl e \<Rightarrow> Inl e | Inr rs \<Rightarrow> Inr (None # rs))
      else (case extract_fee_range_step3 c of
        Inl e \<Rightarrow> Inl e
      | Inr r \<Rightarrow>
          (case extract_columns_step3 cs of Inl e \<Rightarrow> Inl e | Inr rs \<Rightarrow> Inr (Some r # rs))))"

definition identify_products_step3 :: "row \<Rightarrow> error + (nat \<times> product list)" where
  \<comment> \<open>the loop reads the eight threshold columns\<close>
  "identify_products_step3 r =
     (case extract_columns_step3 (take 8 (thresholds r)) of
        Inl e \<Rightarrow> Inl e
      | Inr cols \<Rightarrow>
          Inr (identify_products_step3_ranges (has_flat_fee r) (flat_fee_value r) cols))"

section \<open>Effective Fee Calculator\<close>

fun tier_loop :: "tier list \<Rightarrow> rat \<Rightarrow> rat \<Rightarrow> rat \<times> rat" where
  \<comment> \<open>the loop over the tiers on the state \<^verbatim>\<open>(total_fee, remaining_value)\<close>\<close>
  "tier_loop [] total_fee remaining_value = (total_fee, remaining_value)"
| "tier_loop (t # ts) total_fee remaining_value =
     (if remaining_value \<le> 0 then (total_fee, remaining_value)
      else (case upper t of
        PInf \<Rightarrow> tier_loop ts (total_fee + remaining_value * (fee t / 100)) 0
      | Fin u \<Rightarrow>
          (let tier_value = min (u - lower t) remaining_value
           in tier_loop ts (total_fee + tier_value * (fee t / 100))
                (remaining_value - tier_value))))"

fun charged :: "tier list \<Rightarrow> rat \<Rightarrow> rat list" where
  \<comment> \<open>the amounts that the loop charges, one for each tier it reaches with a positive
      remaining value: the remaining value at an unbounded tier, \<^verbatim>\<open>tier_value\<close> otherwise\<close>
  "charged [] remaining_value = []"
| "charged (t # ts) remaining_value =
     (if remaining_value \<le> 0 then []
      else (case upper t of
        PInf \<Rightarrow> remaining_value # charged ts 0
      | Fin u \<Rightarrow>
          (let tier_value = min (u - lower t) remaining_value
           in tier_value # charged ts (remaining_value - tier_value))))"

definition is_tiered :: "product \<Rightarrow> bool" where
  "is_tiered p = (case p of Tiered _ _ \<Rightarrow> True | Flat _ _ \<Rightarrow> False)"

definition calculate_effective_fee :: "product list \<Rightarrow> rat \<Rightarrow> error + rat option" where
  "calculate_effective_fee products portfolio_value =
     (if products = [] then Inr None
      else (case filter is_tiered products of
        p # _ \<Rightarrow>
          (let total_fee = fst (tier_loop (tiers p) 0 portfolio_value)
           in if portfolio_value = 0 then Inl ZeroDivisionError
              else Inr (Some (total_fee / portfolio_value * 100)))
      | [] \<Rightarrow>
          (case filter (\<lambda>p. \<not> is_tiered p) products of
             p # _ \<Rightarrow> (if flat_fee p \<noteq> None then Inr (flat_fee p) else Inr None)
           | [] \<Rightarrow> Inr None)))"

section \<open>Predicates used in the statements\<close>

definition has_digit :: "string \<Rightarrow> bool" where
  "has_digit s = list_ex is_digit s"

section \<open>Comparing the two segmenters\<close>

definition untag :: "tier \<Rightarrow> tier" where
  \<comment> \<open>the tier without the key \<^verbatim>\<open>original_index\<close>\<close>
  "untag t = t\<lparr>tier_index := None\<rparr>"

fun strip_index :: "product \<Rightarrow> product" where
  \<comment> \<open>the product without the keys \<^verbatim>\<open>original_index\<close> of the product and of its tiers\<close>
  "strip_index (Flat v i) = Flat v 0"
| "strip_index (Tiered ts i) = Tiered (map untag ts) 0"

fun retained :: "extracted option list \<Rightarrow> tier list" where
  \<comment> \<open>the ranges that have a lower bound and a fee, in column order\<close>
  "retained [] = []"
| "retained (Some (Some lo, up, Some f) # cols) = mk_tier lo up f None # retained cols"
| "retained (_ # cols) = retained cols"

fun adjacent_only :: "tier list \<Rightarrow> bool" where
  \<comment> \<open>a range continues (starts within 0.01 of the upper bound of, or follows an unbounded)
      no earlier range other than the one just before it\<close>
  "adjacent_only [] = True"
| "adjacent_only (r # rs) =
     (list_all (\<lambda>x. \<not> continues (upper r) (lower x)) (drop 1 rs) \<and> adjacent_only rs)"

definition far_apart :: "bound \<Rightarrow> rat \<Rightarrow> bool" where
  \<comment> \<open>the upper bound is bounded and at least one currency unit away from \<open>lo\<close>\<close>
  "far_apart up lo = (case up of Fin u \<Rightarrow> 1 \<le> \<bar>u - lo\<bar> | PInf \<Rightarrow> False)"

fun clear_gaps :: "tier list \<Rightarrow> bool" where
  \<comment> \<open>every range is far apart from each later range other than the one just after it\<close>
  "clear_gaps [] = True"
| "clear_gaps (r # rs) =
     (list_all (\<lambda>x. far_apart (upper r) (lower x)) (drop 1 rs) \<and> clear_gaps rs)"

definition moderate :: "tier \<Rightarrow> bool" where
  \<comment> \<open>the bounds are at most \<open>10 ^ 12\<close>: a Python float holds such an amount with an error
      far below the tolerance 0.01 of the segmenters\<close>
  "moderate t = (lower t \<le> 10 ^ 12 \<and> (case upper t of Fin u \<Rightarrow> u \<le> 10 ^ 12 | PInf \<Rightarrow> True))"

fun closed_for :: "rat \<Rightarrow> product \<Rightarrow> bool" where
  \<comment> \<open>the product takes no range that starts at \<open>lo\<close>\<close>
  "closed_for lo (Flat v i) = True"
| "closed_for lo (Tiered ts i) = (ts \<noteq> [] \<and> \<not> continues (upper (last ts)) lo)"

section \<open>Range Extractor: cells with two thousands separators\<close>

text \<open>
  C2. The claim: the Range Extractor reads the cell \<^verbatim>\<open>$1,000,000+ (0.5%)\<close> as lower
  1000000, upper unbounded, fee 0.5. The amount pattern \<^verbatim>\<open>\d+,?\d*\.?\d*\<close> admits one comma
  only, so neither the bounded nor the open pattern matches and the fallback captures
  \<^verbatim>\<open>1,000\<close>: both scripts return lower 1000, no upper, fee 0.5.
\<close>

theorem C2_open_range_two_separators:
  "extract_fee_range (Some ''$1,000,000+ (0.5%)'') = Inr (Some 1000, None, Some (1 / 2)) \<and>
   extract_fee_range_step3 (Some ''$1,000,000+ (0.5%)'') = Inr (Some 1000, None, Some (1 / 2))"
  by code_simp

text \<open>
  C3. The claim: every cell of the form \<^verbatim>\<open>$A - $B (C%)\<close> is read as (A, B, C). On the cell
  \<^verbatim>\<open>$0 - $1,000,000 (1.0%)\<close> the second capture stops before the second comma: both scripts
  return the upper bound 1000.
\<close>

theorem C3_bounded_range_two_separators:
  "extract_fee_range (Some ''$0 - $1,000,000 (1.0%)'') = Inr (Some 0, Some (Fin 1000), Some 1) \<and>
   extract_fee_range_step3 (Some ''$0 - $1,000,000 (1.0%)'') =
     Inr (Some 0, Some (Fin 1000), Some 1)"
  by code_simp

section \<open>Effective Fee Calculator: the three-tier example\<close>

text \<open>
  C4. For the single tiered product with the tiers (0, 1000000, 1.0), (1000000, 5000000,
  0.75), (5000000, unbounded, 0.5) the calculator returns 1.0 at the portfolio value
  1000000 and 0.75 at 6000000.
\<close>

theorem C4_three_tier_effective_fee:
  "calculate_effective_fee
     [Tiered [\<lparr>lower = 0, upper = Fin 1000000, fee = 1, tier_index = None\<rparr>,
              \<lparr>lower = 1000000, upper = Fin 5000000, fee = 3 / 4, tier_index = None\<rparr>,
              \<lparr>lower = 5000000, upper = PInf, fee = 1 / 2, tier_index = None\<rparr>] 0]
     1000000 = Inr (Some 1) \<and>
   calculate_effective_fee
     [Tiered [\<lparr>lower = 0, upper = Fin 1000000, fee = 1, tier_index = None\<rparr>,
              \<lparr>lower = 1000000, upper = Fin 5000000, fee = 3 / 4, tier_index = None\<rparr>,
              \<lparr>lower = 5000000, upper = PInf, fee = 1 / 2, tier_index = None\<rparr>] 0]
     6000000 = Inr (Some (3 / 4))"
  by (simp add: calculate_effective_fee_def is_tiered_def)

section \<open>Product Segmenter: three contiguous ranges\<close>

text \<open>
  C5. Given the ranges (0, 1000000, 1.0), (1000000, 5000000, 0.75), (5000000, unbounded,
  0.5) in that column order and no flat fee, each of the two segmenters returns exactly
  one tiered product, with these three tiers in that order.
\<close>

theorem C5_contiguous_ranges_one_product:
  "identify_products_ranges 0 None
     [Some (Some 0, Some (Fin 1000000), Some 1),
      Some (Some 1000000, Some (Fin 5000000), Some (3 / 4)),
      Some (Some 5000000, Some PInf, Some (1 / 2))]
   = Inr (1, [Tiered [\<lparr>lower = 0, upper = Fin 1000000, fee = 1, tier_index = None\<rparr>,
              \<lparr>lower = 1000000, upper = Fin 5000000, fee = 3 / 4, tier_index = None\<rparr>,
              \<lparr>lower = 5000000, upper = PInf, fee = 1 / 2, tier_index = None\<rparr>] 0]) \<and>
   identify_products_step3_ranges 0 None
     [Some (Some 0, Some (Fin 1000000), Some 1),
      Some (Some 1000000, Some (Fin 5000000), Some (3 / 4)),
      Some (Some 5000000, Some PInf, Some (1 / 2))]
   = (1, [Tiered [\<lparr>lower = 0, upper = Fin 1000000, fee = 1, tier_index = Some 0\<rparr>,
              \<lparr>lower = 1000000, upper = Fin 5000000, fee = 3 / 4, tier_index = Some 1\<rparr>,
              \<lparr>lower = 5000000, upper = PInf, fee = 1 / 2, tier_index = Some 2\<rparr>] 0])"
  by (simp add: identify_products_ranges_def identify_products_step3_ranges_def add_range_def
      mk_tier_def continues_def continues_step3_def product_key_def first_tier_fee_def)

section \<open>Field Normalizer: the sentinel tokens\<close>

text \<open>
  C8. The claim: each normalizer returns absent on the tokens empty, \<^verbatim>\<open>No\<close>, \<^verbatim>\<open>N/A\<close> and
  \<^verbatim>\<open>-1\<close>. In \<^verbatim>\<open>enhanced_fee_analysis.py\<close> no normalizer tests for \<^verbatim>\<open>-1\<close>, and the flat fee
  normalizer does not test for \<^verbatim>\<open>N/A\<close>: the token \<^verbatim>\<open>-1\<close> is read as present with the value 1,
  and \<^verbatim>\<open>N/A\<close> as a flat fee that is present with no value.
\<close>

theorem C8_sentinels_read_as_present:
  "process_flat_fee (Some ''-1'') = Inr (1, Some 1) \<and>
   process_flat_fee (Some ''N/A'') = Inr (1, None) \<and>
   process_minimum_investment (Some ''-1'') = Inr (1, Some 1) \<and>
   process_negotiable_threshold (Some ''-1'') = Inr (1, Some 1)"
  by code_simp

section \<open>Effective Fee Calculator: the tier walk\<close>

text \<open>
  The state of the loop after its first \<open>k\<close> iterations is \<open>tier_loop (take k ts) 0 v\<close>:
  the walk over the whole list continues from the state reached on a prefix.
\<close>

lemma tier_loop_append:
  "tier_loop (xs @ ys) tf r = (case tier_loop xs tf r of (tf', r') \<Rightarrow> tier_loop ys tf' r')"
proof (induction xs arbitrary: tf r)
  case Nil
  then show ?case by simp
next
  case (Cons t xs)
  show ?case
  proof (cases "r \<le> 0")
    case True
    then show ?thesis by (cases ys) simp_all
  next
    case False
    then show ?thesis using Cons.IH by (simp add: Let_def split: bound.splits)
  qed
qed



lemma tier_loop_total:
  "fst (tier_loop ts tf r) = tf + (\<Sum>(a, t) \<leftarrow> zip (charged ts r) ts. a * (fee t / 100))"
proof (induction ts arbitrary: tf r)
  case Nil
  then show ?case by simp
next
  case (Cons t ts)
  show ?case
  proof (cases "r \<le> 0")
    case True
    then show ?thesis by simp
  next
    case False
    show ?thesis
    proof (cases "upper t")
      case (Fin u)
      then show ?thesis using False Cons.IH by (simp add: Let_def)
    next
      case PInf
      then show ?thesis using False Cons.IH by simp
    qed
  qed
qed



section \<open>Field Normalizer: text that holds no number\<close>

lemma has_digit_simps:
  "has_digit [] = False" "has_digit (x # xs) = (is_digit x \<or> has_digit xs)"
  by (simp_all add: has_digit_def)

lemma rmatch_number_needs_digit:
  "\<not> has_digit s \<Longrightarrow> rmatch (Mark # Plus Digit # p) s = None"
  by (cases s) (simp_all add: has_digit_simps)

lemma rmatch_dollar_needs_digit:
  "\<not> has_digit s \<Longrightarrow> rmatch (Lit d # Mark # Plus Digit # p) s = None"
  by (cases s) (simp_all add: has_digit_simps rmatch_number_needs_digit del: rmatch.simps(2))

lemma re_search_number_needs_digit:
  "\<not> has_digit s \<Longrightarrow> re_search (Mark # Plus Digit # p) s = None"
  by (induction s) (simp_all add: has_digit_simps)

lemma re_search_dollar_needs_digit:
  "\<not> has_digit s \<Longrightarrow> re_search (Lit d # Mark # Plus Digit # p) s = None"
proof (induction s)
  case Nil
  then show ?case by simp
next
  case (Cons x xs)
  then have rest: "\<not> has_digit xs" by (simp add: has_digit_simps)
  have "rmatch (Lit d # Mark # Plus Digit # p) (x # xs) = None"
    using Cons.prems by (rule rmatch_dollar_needs_digit)
  with Cons.IH rest show ?case by (simp del: rmatch.simps)
qed

lemma searches_need_digit:
  assumes "\<not> has_digit s"
  shows "re_search pct_pat s = None" and "re_search dollar_pat s = None"
    and "re_search number_pat s = None" and "re_search amount_pat s = None"
  using assms
  by (simp_all add: pct_pat_def number_pat_def dollar_pat_def amount_pat_def
      re_search_number_needs_digit re_search_dollar_needs_digit)

text \<open>
  C9, as amended. The claim as stated fails for two of the three normalizers, which end
  with \<^verbatim>\<open>return 0, None\<close>. For a text that is no sentinel token (it is not blank and,
  ignoring case, is none of \<^verbatim>\<open>no\<close>, \<^verbatim>\<open>n/a\<close>, \<^verbatim>\<open>-1\<close>) and that holds no digit:
  \<^verbatim>\<open>process_flat_fee\<close> returns present with no value; \<^verbatim>\<open>process_minimum_investment\<close>
  returns present with no value when the text is \<^verbatim>\<open>yes\<close>, \<^verbatim>\<open>y\<close> or \<^verbatim>\<open>true\<close>, ignoring
  case, and absent otherwise; \<^verbatim>\<open>process_negotiable_threshold\<close> returns absent.
\<close>

theorem C9_presence_without_number:
  assumes "\<not> has_digit s" and "py_strip s \<noteq> []"
    and "py_lower s \<notin> set [''no'', ''n/a'', ''-1'']"
  shows "process_flat_fee (Some s) = Inr (1, None) \<and>
         process_minimum_investment (Some s) =
           Inr (if py_lower s \<in> set [''yes'', ''y'', ''true''] then 1 else 0, None) \<and>
         process_negotiable_threshold (Some s) = Inr (0, None)"
  using assms(2,3) searches_need_digit [OF assms(1)]
  by (simp add: process_flat_fee_def process_minimum_investment_def
      process_negotiable_threshold_def)

text \<open>
  The text \<^verbatim>\<open>maybe\<close> is no sentinel and holds no marker and no digit; the minimum
  investment and the negotiable threshold are absent on it.
\<close>

theorem C9_absent_without_number_counterexample:
  "\<not> has_digit ''maybe'' \<and> CHR ''$'' \<notin> set ''maybe'' \<and> CHR ''%'' \<notin> set ''maybe'' \<and>
   py_strip ''maybe'' \<noteq> [] \<and> py_lower ''maybe'' \<notin> set [''no'', ''n/a'', ''-1''] \<and>
   process_minimum_investment (Some ''maybe'') = Inr (0, None) \<and>
   process_negotiable_threshold (Some ''maybe'') = Inr (0, None)"
  by code_simp

theorem C9_presence_witness:
  "\<not> has_digit ''maybe'' \<and> py_strip ''maybe'' \<noteq> [] \<and>
   py_lower ''maybe'' \<notin> set [''no'', ''n/a'', ''-1''] \<and>
   process_flat_fee (Some ''maybe'') = Inr (1, None) \<and>
   process_minimum_investment (Some ''maybe'') = Inr (0, None) \<and>
   process_negotiable_threshold (Some ''maybe'') = Inr (0, None)"
proof -
  have h1: "\<not> has_digit ''maybe''" by code_simp
  have h2: "py_strip ''maybe'' \<noteq> []" by code_simp
  have h3: "py_lower ''maybe'' = ''maybe''" by code_simp
  have h4: "py_lower ''maybe'' \<notin> set [''no'', ''n/a'', ''-1'']" by (simp add: h3)
  show ?thesis using C9_presence_without_number [OF h1 h2 h4] h1 h2 h3 h4 by simp
qed

section \<open>Product Segmenter: a range after an unbounded tier\<close>

lemma append_tier_after_unbounded:
  "append_tier (Tiered (ts @ [t\<lparr>upper := PInf\<rparr>]) i # ps) lo up f =
     Inr (Some (Tiered (ts @ [t\<lparr>upper := PInf\<rparr>, mk_tier lo up f None]) i # ps))"
  by (cases ts) (simp_all add: continues_def)

text \<open>
  C1, as amended. The claim as stated fails: both scripts test
  \<^verbatim>\<open>... or last_upper == float('inf')\<close> in the condition that appends. In
  \<^verbatim>\<open>enhanced_fee_analysis.py\<close> a retained range is appended to a tiered product whose last
  tier is unbounded; in the step-3 script it is appended to the current product when the
  running upper bound is unbounded. For the ranges (0, 500000, 1.2), (500000, unbounded,
  1.0), (0, 1000000, 0.8) in that column order the first script returns one tiered product
  with the three tiers in column order, and the step-3 script, which sorts the ranges by
  their lower bound first, returns three tiered products of one tier each.
\<close>

theorem C1_unbounded_upper_continues:
  "append_tier (Tiered (ts @ [t\<lparr>upper := PInf\<rparr>]) i # ps) lo up f =
     Inr (Some (Tiered (ts @ [t\<lparr>upper := PInf\<rparr>, mk_tier lo up f None]) i # ps)) \<and>
   group_ranges dn cur idx PInf (r # rs) = group_ranges dn (cur @ [r]) idx (upper r) rs \<and>
   identify_products_ranges 0 None
     [Some (Some 0, Some (Fin 500000), Some (6 / 5)),
      Some (Some 500000, Some PInf, Some 1),
      Some (Some 0, Some (Fin 1000000), Some (4 / 5))]
   = Inr (1, [Tiered [\<lparr>lower = 0, upper = Fin 500000, fee = 6 / 5, tier_index = None\<rparr>,
                      \<lparr>lower = 500000, upper = PInf, fee = 1, tier_index = None\<rparr>,
                      \<lparr>lower = 0, upper = Fin 1000000, fee = 4 / 5, tier_index = None\<rparr>] 0]) \<and>
   identify_products_step3_ranges 0 None
     [Some (Some 0, Some (Fin 500000), Some (6 / 5)),
      Some (Some 500000, Some PInf, Some 1),
      Some (Some 0, Some (Fin 1000000), Some (4 / 5))]
   = (3, [Tiered [\<lparr>lower = 0, upper = Fin 1000000, fee = 4 / 5, tier_index = Some 2\<rparr>] 1,
          Tiered [\<lparr>lower = 500000, upper = PInf, fee = 1, tier_index = Some 1\<rparr>] 2,
          Tiered [\<lparr>lower = 0, upper = Fin 500000, fee = 6 / 5, tier_index = Some 0\<rparr>] 0])"
  by (simp add: append_tier_after_unbounded identify_products_ranges_def
      identify_products_step3_ranges_def add_range_def mk_tier_def continues_def
      continues_step3_def product_key_def first_tier_fee_def)

text \<open>
  On the ranges of the claim the segmenters return one product and three products, not
  two.
\<close>

theorem C1_restart_after_unbounded_counterexample:
  "identify_products_ranges 0 None
     [Some (Some 0, Some (Fin 500000), Some (6 / 5)),
      Some (Some 500000, Some PInf, Some 1),
      Some (Some 0, Some (Fin 1000000), Some (4 / 5))]
   = Inr (1, [Tiered [\<lparr>lower = 0, upper = Fin 500000, fee = 6 / 5, tier_index = None\<rparr>,
                      \<lparr>lower = 500000, upper = PInf, fee = 1, tier_index = None\<rparr>,
                      \<lparr>lower = 0, upper = Fin 1000000, fee = 4 / 5, tier_index = None\<rparr>] 0]) \<and>
   fst (identify_products_step3_ranges 0 None
     [Some (Some 0, Some (Fin 500000), Some (6 / 5)),
      Some (Some 500000, Some PInf, Some 1),
      Some (Some 0, Some (Fin 1000000), Some (4 / 5))]) = 3"
  by (simp add: identify_products_ranges_def
      identify_products_step3_ranges_def add_range_def mk_tier_def continues_def
      continues_step3_def product_key_def first_tier_fee_def)

section \<open>Product Segmenter: the two scripts compared\<close>

subsection \<open>The two extractors return the same ranges\<close>

lemma rmatch_needs_literal:
  "Lit c \<in> set p \<Longrightarrow> c \<notin> set s \<Longrightarrow> rmatch p s = None"
  by (induction p s rule: rmatch.induct) auto

lemma re_search_needs_literal:
  "Lit c \<in> set p \<Longrightarrow> c \<notin> set s \<Longrightarrow> re_search p s = None"
  by (induction s) (simp_all add: rmatch_needs_literal del: rmatch.simps)

lemma extract_bounds_no_dollar:
  assumes "CHR ''$'' \<notin> set s"
  shows "extract_bounds s = Inr (None, None)"
proof -
  have "re_search range_pat s = None" "re_search plus_pat s = None"
       "re_search dollar_pat s = None"
    using assms
    by (simp_all add: re_search_needs_literal [of "CHR ''$''"] range_pat_def plus_pat_def
        dollar_pat_def)
  then show ?thesis by (simp add: extract_bounds_def)
qed

lemma extract_pct_no_percent:
  assumes "CHR ''%'' \<notin> set s"
  shows "extract_pct s = Inr None"
proof -
  have "re_search pct_pat s = None"
    using assms by (simp add: re_search_needs_literal [of "CHR ''%''"] pct_pat_def)
  then show ?thesis by (simp add: extract_pct_def)
qed

lemma lower_char_marker:
  "lower_char CHR ''$'' = CHR ''$''" "lower_char CHR ''%'' = CHR ''%''"
  by (simp_all add: lower_char_def)

lemma py_lower_keeps_marker:
  assumes "c \<in> set s" and "lower_char c = c"
  shows "c \<in> set (py_lower s)"
proof -
  have "lower_char c \<in> set (py_lower s)" using assms(1) by (simp add: py_lower_def)
  then show ?thesis using assms(2) by simp
qed

lemma sentinel_no_marker:
  assumes "py_lower s \<in> set [''n/a'', ''na'', ''-1'']"
  shows "CHR ''$'' \<notin> set s" and "CHR ''%'' \<notin> set s"
proof -
  have d: "CHR ''$'' \<notin> set (py_lower s)" and p: "CHR ''%'' \<notin> set (py_lower s)"
    using assms by auto
  show "CHR ''$'' \<notin> set s" using d py_lower_keeps_marker lower_char_marker(1) by blast
  show "CHR ''%'' \<notin> set s" using p py_lower_keeps_marker lower_char_marker(2) by blast
qed

lemma blank_all_space:
  assumes "py_strip s = []"
  shows "\<forall>c\<in>set s. is_space c"
proof -
  have "dropWhile is_space (rev (dropWhile is_space s)) = []"
    using assms by (simp add: py_strip_def)
  then have "\<forall>c\<in>set (dropWhile is_space s). is_space c"
    by (simp add: dropWhile_eq_Nil_conv)
  then have "dropWhile is_space s = []"
    using hd_dropWhile [of is_space s] hd_in_set [of "dropWhile is_space s"] by blast
  then show ?thesis by (simp add: dropWhile_eq_Nil_conv)
qed

lemma blank_no_marker:
  assumes "py_strip s = []"
  shows "CHR ''$'' \<notin> set s" and "CHR ''%'' \<notin> set s"
proof -
  have sp: "\<forall>c\<in>set s. is_space c" using assms by (rule blank_all_space)
  have "\<not> is_space CHR ''$''" "\<not> is_space CHR ''%''" by (simp_all add: is_space_def)
  with sp show "CHR ''$'' \<notin> set s" and "CHR ''%'' \<notin> set s" by blast+
qed

lemma to_float_error: "to_float s = Inl e \<Longrightarrow> e = ValueError"
  by (simp add: to_float_def split: option.splits)

lemma extract_bounds_error: "extract_bounds s = Inl e \<Longrightarrow> e = ValueError"
  by (auto simp: extract_bounds_def split: option.splits sum.splits dest: to_float_error)

lemma extract_pct_error: "extract_pct s = Inl e \<Longrightarrow> e = ValueError"
  by (auto simp: extract_pct_def split: option.splits sum.splits dest: to_float_error)

lemma extract_fee_range_step3_eq:
  "extract_fee_range_step3 c = extract_fee_range c"
proof (cases c)
  case None
  then show ?thesis by (simp add: extract_fee_range_def extract_fee_range_step3_def)
next
  case (Some s)
  have empty: "extract_bounds s = Inr (None, None) \<and> extract_pct s = Inr None"
    if "py_lower s \<in> set [''n/a'', ''na'', ''-1''] \<or> py_strip s = []"
    using that sentinel_no_marker [of s] blank_no_marker [of s]
      extract_bounds_no_dollar [of s] extract_pct_no_percent [of s]
    by blast
  have strip_nil: "py_strip [] = []" by (simp add: py_strip_def)
  show ?thesis
  proof (cases "py_lower s \<in> set [''n/a'', ''na'', ''-1''] \<or> py_strip s = []")
    case True
    then show ?thesis
      using empty [OF True] Some strip_nil
      by (auto simp: extract_fee_range_def extract_fee_range_step3_def)
  next
    case False
    then have ne: "s \<noteq> []" using strip_nil by auto
    show ?thesis
    proof (cases "extract_bounds s")
      case (Inl e)
      then have "e = ValueError" by (rule extract_bounds_error)
      then show ?thesis
        using Some False ne Inl extract_pct_error [of s]
        by (auto simp: extract_fee_range_def extract_fee_range_step3_def split: sum.splits)
    next
      case (Inr b)
      then show ?thesis
        using Some False ne
        by (auto simp: extract_fee_range_def extract_fee_range_step3_def
            split: sum.splits prod.splits)
    qed
  qed
qed

subsection \<open>The column loop and the grouping of the sorted ranges\<close>

lemma untag_fields:
  "lower (untag t) = lower t" "upper (untag t) = upper t" "fee (untag t) = fee t"
  by (simp_all add: untag_def)

lemma untag_eq_fields:
  assumes "untag a = untag b"
  shows "lower a = lower b" and "upper a = upper b" and "fee a = fee b"
  using untag_fields [of a] untag_fields [of b] assms by simp_all

lemma untag_mk_tier: "untag (mk_tier lo up f idx) = mk_tier lo up f None"
  by (simp add: untag_def mk_tier_def)

lemma mk_tier_fields:
  "lower (mk_tier lo up f idx) = lo"
  "upper (mk_tier lo up f idx) = (case up of None \<Rightarrow> PInf | Some u \<Rightarrow> u)"
  by (simp_all add: mk_tier_def)

lemma collect_ranges_untag: "map untag (collect_ranges i cols) = retained cols"
  by (induction i cols rule: collect_ranges.induct) (simp_all add: untag_mk_tier)

lemma map_lower_untag: "map lower (map untag ts) = map lower ts"
  by (simp add: untag_fields)

lemma continues_step3_eq: "continues_step3 lo lu = continues lu lo"
  by (simp add: continues_step3_def continues_def abs_minus_commute split: bound.splits)

lemma group_ranges_strip:
  assumes "map strip_index dn = map strip_index dn'"
    and "map untag cur = map untag cur'"
    and "map untag rs = map untag rs'"
  shows "map strip_index (group_ranges dn cur idx lu rs) =
         map strip_index (group_ranges dn' cur' idx' lu rs')"
  using assms
proof (induction rs arbitrary: dn cur idx lu rs' dn' cur' idx')
  case Nil
  then show ?case by simp
next
  case (Cons r rs)
  from Cons.prems(3) obtain r' rs'' where rs': "rs' = r' # rs''"
    and r: "untag r = untag r'" and rest: "map untag rs = map untag rs''"
    by (cases rs') auto
  have lo: "lower r = lower r'" and up: "upper r = upper r'"
    using r by (rule untag_eq_fields)+
  show ?case
  proof (cases "continues_step3 (lower r) lu")
    case True
    have "map untag (cur @ [r]) = map untag (cur' @ [r'])"
      using Cons.prems(2) r by simp
    from Cons.IH [OF Cons.prems(1) this rest, of idx "upper r" idx']
    show ?thesis using True lo up rs' by simp
  next
    case False
    have d: "map strip_index (dn @ [Tiered cur idx]) = map strip_index (dn' @ [Tiered cur' idx'])"
      using Cons.prems(1,2) by simp
    have c: "map untag [r] = map untag [r']" using r by simp
    have len: "length dn = length dn'" using Cons.prems(1) by (rule map_eq_imp_length_eq)
    from Cons.IH [OF d c rest, of "int (length dn + 1)" "upper r" "int (length dn' + 1)"]
    show ?thesis using False lo up rs' by simp
  qed
qed

lemma append_tier_skip:
  assumes "\<forall>p\<in>set pre. closed_for lo p"
  shows "append_tier (pre @ q) lo up f =
         (case append_tier q lo up f of
            Inl e \<Rightarrow> Inl e
          | Inr None \<Rightarrow> Inr None
          | Inr (Some q') \<Rightarrow> Inr (Some (pre @ q')))"
  using assms
proof (induction pre)
  case Nil
  then show ?case by (simp split: sum.splits option.splits)
next
  case (Cons p pre)
  then have ih: "append_tier (pre @ q) lo up f =
         (case append_tier q lo up f of
            Inl e \<Rightarrow> Inl e
          | Inr None \<Rightarrow> Inr None
          | Inr (Some q') \<Rightarrow> Inr (Some (pre @ q')))" by simp
  show ?case
  proof (cases p)
    case (Flat v i)
    then show ?thesis using ih by (simp split: sum.splits option.splits)
  next
    case (Tiered ts i)
    then obtain t ts' where ts: "ts = t # ts'" using Cons.prems by (cases ts) auto
    have "\<not> continues (upper (last (t # ts'))) lo" using Cons.prems Tiered ts by simp
    then show ?thesis using ih Tiered ts by (simp split: sum.splits option.splits)
  qed
qed

lemma append_tier_current:
  assumes "cur \<noteq> []"
  shows "append_tier [Tiered cur i] lo up f =
         (if continues (upper (last cur)) lo
          then Inr (Some [Tiered (cur @ [mk_tier lo up f None]) i]) else Inr None)"
  using assms by (cases cur) simp_all

lemma add_range_current:
  assumes "cur \<noteq> []" and "\<forall>p\<in>set pre. closed_for lo p"
  shows "add_range (pre @ [Tiered cur i]) (Some lo, up, Some f) =
         (if continues (upper (last cur)) lo
          then Inr (pre @ [Tiered (cur @ [mk_tier lo up f None]) i])
          else Inr (pre @ [Tiered cur i, Tiered [mk_tier lo up f None] (int (length pre + 1))]))"
  using append_tier_skip [of pre lo "[Tiered cur i]" up f] assms(2)
    append_tier_current [OF assms(1)]
  by (simp add: add_range_def)

lemma add_ranges_group:
  assumes "cur \<noteq> []"
    and "\<forall>x\<in>set (retained cols). \<forall>p\<in>set pre. closed_for (lower x) p"
    and "list_all (\<lambda>x. \<not> continues (upper (last cur)) (lower x)) (drop 1 (retained cols))"
    and "adjacent_only (retained cols)"
  shows "add_ranges (pre @ [Tiered cur i]) cols =
         Inr (group_ranges pre cur i (upper (last cur)) (retained cols))"
  using assms
proof (induction cols arbitrary: pre cur i rule: retained.induct)
  case 1
  then show ?case by simp
next
  case (2 lo up f cols)
  let ?t = "mk_tier lo up f None"
  have lo: "lower ?t = lo" by (simp add: mk_tier_fields)
  have closed: "\<forall>p\<in>set pre. closed_for lo p" using "2.prems"(2) lo by simp
  have rest_closed: "\<forall>x\<in>set (retained cols). \<forall>p\<in>set pre. closed_for (lower x) p"
    using "2.prems"(2) by simp
  have cur_rest: "\<forall>x\<in>set (retained cols). \<not> continues (upper (last cur)) (lower x)"
    using "2.prems"(3) by (simp add: list_all_iff)
  have t_rest: "list_all (\<lambda>x. \<not> continues (upper ?t) (lower x)) (drop 1 (retained cols))"
    and adj: "adjacent_only (retained cols)"
    using "2.prems"(4) by simp_all
  show ?case
  proof (cases "continues (upper (last cur)) lo")
    case True
    have ih: "add_ranges (pre @ [Tiered (cur @ [?t]) i]) cols =
         Inr (group_ranges pre (cur @ [?t]) i (upper (last (cur @ [?t]))) (retained cols))"
      using rest_closed t_rest adj by (intro "2.IH") simp_all
    show ?thesis
      using True ih add_range_current [OF "2.prems"(1) closed, of i up f] lo
      by (simp add: continues_step3_eq)
  next
    case False
    have closed': "\<forall>x\<in>set (retained cols). \<forall>p\<in>set (pre @ [Tiered cur i]). closed_for (lower x) p"
      using rest_closed cur_rest "2.prems"(1) by auto
    have ih: "add_ranges ((pre @ [Tiered cur i]) @ [Tiered [?t] (int (length pre + 1))]) cols =
         Inr (group_ranges (pre @ [Tiered cur i]) [?t] (int (length pre + 1))
               (upper (last [?t])) (retained cols))"
      using closed' t_rest adj by (intro "2.IH") simp_all
    show ?thesis
      using False ih add_range_current [OF "2.prems"(1) closed, of i up f] lo
      by (simp add: continues_step3_eq)
  qed
qed (simp_all add: add_range_def split: option.splits)

lemma add_ranges_start:
  assumes "\<forall>p\<in>set flat. \<not> is_tiered p" and "adjacent_only (retained cols)"
  shows "add_ranges flat cols =
         Inr (case retained cols of
                [] \<Rightarrow> flat
              | t # ts \<Rightarrow> group_ranges flat [t] (int (length flat)) (upper t) ts)"
  using assms
proof (induction cols rule: retained.induct)
  case 1
  then show ?case by simp
next
  case (2 lo up f cols)
  let ?t = "mk_tier lo up f None"
  have closed: "\<forall>p\<in>set flat. closed_for x p" for x
  proof
    fix p assume "p \<in> set flat"
    then have "\<not> is_tiered p" using "2.prems"(1) by simp
    then show "closed_for x p" by (cases p) (simp_all add: is_tiered_def)
  qed
  have none: "append_tier flat lo up f = Inr None"
    using append_tier_skip [of flat lo "[]" up f] closed by simp
  have step: "add_range flat (Some lo, up, Some f) = Inr (flat @ [Tiered [?t] (int (length flat))])"
    using none by (simp add: add_range_def)
  have "add_ranges (flat @ [Tiered [?t] (int (length flat))]) cols =
        Inr (group_ranges flat [?t] (int (length flat)) (upper (last [?t])) (retained cols))"
    using closed "2.prems"(2) by (intro add_ranges_group) simp_all
  then show ?case using step by simp
qed (simp_all add: add_range_def split: option.splits)

lemma product_key_strip: "product_key (strip_index p) = product_key p"
proof (cases p)
  case (Flat v i)
  then show ?thesis by (simp add: product_key_def first_tier_fee_def)
next
  case (Tiered ts i)
  then show ?thesis
    by (cases ts) (simp_all add: product_key_def first_tier_fee_def untag_fields)
qed

lemma insort_key_strip:
  "map strip_index (insort_key product_key p ps) =
   insort_key product_key (strip_index p) (map strip_index ps)"
  by (induction ps) (simp_all add: product_key_strip)

lemma sort_key_strip:
  "map strip_index (sort_key product_key ps) = sort_key product_key (map strip_index ps)"
  by (induction ps) (simp_all add: insort_key_strip)

lemma py_lower_NA: "py_lower ''N/A'' = ''n/a''"
  by code_simp

lemma extract_fee_range_NA: "extract_fee_range (Some ''N/A'') = Inr (None, None, None)"
  by (simp add: extract_fee_range_def py_lower_NA)

lemma retained_Cons_cong:
  assumes "retained a = retained b"
  shows "retained (c # a) = retained (c # b)"
proof (cases c)
  case None
  then show ?thesis using assms by simp
next
  case (Some x)
  obtain lo up f where x: "x = (lo, up, f)" by (cases x)
  show ?thesis using assms Some x by (cases lo; cases f) simp_all
qed

lemma extract_columns_step3_retained:
  "extract_columns cells = Inr cols \<Longrightarrow>
   \<exists>cols'. extract_columns_step3 cells = Inr cols' \<and> retained cols' = retained cols"
proof (induction cells arbitrary: cols)
  case Nil
  then show ?case by simp
next
  case (Cons c cells)
  show ?case
  proof (cases "c = None \<or> c = Some ''N/A''")
    case True
    with Cons.prems obtain rs where rs: "extract_columns cells = Inr rs" and cols: "cols = None # rs"
      by (auto split: sum.splits)
    from Cons.IH [OF rs] obtain rs' where
      rs': "extract_columns_step3 cells = Inr rs'" "retained rs' = retained rs" by blast
    show ?thesis
    proof (cases c)
      case None
      then show ?thesis using rs' cols by simp
    next
      case (Some s)
      then have "c = Some ''N/A''" using True by simp
      then show ?thesis
        using rs' cols extract_fee_range_NA by (simp add: extract_fee_range_step3_eq)
    qed
  next
    case False
    with Cons.prems obtain r rs where r: "extract_fee_range c = Inr r"
      and rs: "extract_columns cells = Inr rs" and cols: "cols = Some r # rs"
      by (auto split: sum.splits)
    from Cons.IH [OF rs] obtain rs' where
      rs': "extract_columns_step3 cells = Inr rs'" "retained rs' = retained rs" by blast
    have "extract_columns_step3 (c # cells) = Inr (Some r # rs')"
      using False r rs'(1) by (simp add: extract_fee_range_step3_eq)
    moreover have "retained (Some r # rs') = retained cols"
      unfolding cols using rs'(2) by (rule retained_Cons_cong)
    ultimately show ?thesis by blast
  qed
qed

lemma step3_products_strip:
  assumes srt: "sorted (map lower (retained cols))"
  shows "map strip_index
           (case sort_key lower (collect_ranges 0 cols) of
              [] \<Rightarrow> flat
            | r # rs \<Rightarrow> group_ranges flat [r] 0 (upper r) rs) =
         map strip_index
           (case retained cols of
              [] \<Rightarrow> flat
            | t # ts \<Rightarrow> group_ranges flat [t] (int (length flat)) (upper t) ts)"
proof -
  have un: "map untag (collect_ranges 0 cols) = retained cols" by (rule collect_ranges_untag)
  have "map lower (collect_ranges 0 cols) = map lower (retained cols)"
    using map_lower_untag [of "collect_ranges 0 cols"] un by simp
  then have "sorted (map lower (collect_ranges 0 cols))" using srt by simp
  then have id: "sort_key lower (collect_ranges 0 cols) = collect_ranges 0 cols"
    by (rule sort_key_id_if_sorted)
  show ?thesis
  proof (cases "collect_ranges 0 cols")
    case Nil
    then show ?thesis using un id by simp
  next
    case (Cons r rs)
    define t where "t = untag r"
    define ts where "ts = map untag rs"
    have ret: "retained cols = t # ts" using un Cons by (simp add: t_def ts_def)
    have up: "upper r = upper t" by (simp add: t_def untag_fields)
    have a: "map untag [r] = map untag [t]" by (simp add: t_def untag_def)
    have b: "map untag rs = map untag ts" by (simp add: ts_def untag_def)
    have "map strip_index (group_ranges flat [r] 0 (upper r) rs) =
        map strip_index (group_ranges flat [t] (int (length flat)) (upper r) ts)"
      using group_ranges_strip [where dn = flat and dn' = flat and cur = "[r]" and cur' = "[t]"
          and rs = rs and rs' = ts and idx = 0 and lu = "upper r"
          and idx' = "int (length flat)"] a b
      by blast
    then show ?thesis using Cons ret id up by simp
  qed
qed

lemma far_apart_not_continues: "far_apart up lo \<Longrightarrow> \<not> continues up lo"
  by (cases up) (simp_all add: far_apart_def continues_def)

lemma clear_gaps_adjacent_only: "clear_gaps ts \<Longrightarrow> adjacent_only ts"
  by (induction ts) (auto simp: list_all_iff far_apart_not_continues)

text \<open>
  C10, as amended. The two \<^verbatim>\<open>identify_products\<close> are not equivalent on every row: the
  first script appends a range to the first earlier product that it continues, in column
  order, and the step-3 script sorts the ranges and looks at the current product only.
  They agree on a row whose flat fee, when present, has a value and whose retained ranges,
  in column order, have bounds of at most \<open>10 ^ 12\<close>, ascend by lower bound, and are
  such that every range is bounded and at least one currency unit away from the lower
  bound of each later range other than the one just after it: then both return the same
  product count and the same ordered products, up to the keys \<^verbatim>\<open>original_index\<close> of the
  products and of their tiers.
\<close>

theorem C10_segmenters_agree_on_chained_rows:
  assumes "extract_columns (take 8 (thresholds r)) = Inr cols"
    and "has_flat_fee r = 1 \<longrightarrow> flat_fee_value r \<noteq> None"
    and "list_all moderate (retained cols)"
    and "sorted (map lower (retained cols))"
    and "clear_gaps (retained cols)"
  shows "\<exists>n ps ps'. identify_products r = Inr (n, ps) \<and>
           identify_products_step3 r = Inr (n, ps') \<and>
           map strip_index ps = map strip_index ps'"
proof -
  have adj: "adjacent_only (retained cols)" using assms(5) by (rule clear_gaps_adjacent_only)
  define flat where
    "flat = (if has_flat_fee r = 1 then [Flat (flat_fee_value r) (- 1)] else [])"
  have flat3: "(if has_flat_fee r = 1 \<and> flat_fee_value r \<noteq> None
                then [Flat (flat_fee_value r) (- 1)] else []) = flat"
    using assms(2) by (simp add: flat_def)
  have nt: "\<forall>p\<in>set flat. \<not> is_tiered p" by (simp add: flat_def is_tiered_def)
  define ps where "ps = (case retained cols of
       [] \<Rightarrow> flat | t # ts \<Rightarrow> group_ranges flat [t] (int (length flat)) (upper t) ts)"
  have main: "identify_products r = Inr (length ps, sort_key product_key ps)"
    using assms(1) add_ranges_start [OF nt adj]
    by (simp add: identify_products_def identify_products_ranges_def flat_def ps_def)
  from extract_columns_step3_retained [OF assms(1)] obtain cols' where
    c3: "extract_columns_step3 (take 8 (thresholds r)) = Inr cols'"
    and ret: "retained cols' = retained cols"
    by blast
  define ps' where "ps' = (case sort_key lower (collect_ranges 0 cols') of
       [] \<Rightarrow> flat | r # rs \<Rightarrow> group_ranges flat [r] 0 (upper r) rs)"
  have step3: "identify_products_step3 r = Inr (length ps', sort_key product_key ps')"
    using c3 flat3
    by (simp add: identify_products_step3_def identify_products_step3_ranges_def ps'_def Let_def)
  have eq: "map strip_index ps' = map strip_index ps"
    using step3_products_strip [of cols' flat] assms(4) ret by (simp add: ps_def ps'_def)
  then have len: "length ps' = length ps" by (rule map_eq_imp_length_eq)
  have "map strip_index (sort_key product_key ps) = map strip_index (sort_key product_key ps')"
    using eq by (simp add: sort_key_strip)
  then show ?thesis using main step3 len by simp
qed

subsection \<open>Two rows\<close>

lemmas extract_eval = extract_fee_range_def extract_bounds_def extract_pct_def py_lower_def
  lower_char_def py_strip_def is_space_def range_pat_def plus_pat_def dollar_pat_def
  amount_pat_def pct_pat_def number_pat_def is_digit_def group_def between_def to_float_def
  py_float_def remove_commas_def digits_val_def digit_val_def

lemmas segment_eval = identify_products_ranges_def identify_products_step3_ranges_def
  add_range_def mk_tier_def continues_def continues_step3_def product_key_def
  first_tier_fee_def

lemma cell_0_500k: "extract_fee_range (Some ''$0 - $500,000 (1.2%)'') =
    Inr (Some 0, Some (Fin 500000), Some (6 / 5))"
  by (simp add: extract_eval)

lemma cell_500k_plus: "extract_fee_range (Some ''$500,000+ (1.0%)'') =
    Inr (Some 500000, Some PInf, Some 1)"
  by (simp add: extract_eval)

lemma cell_0_900k: "extract_fee_range (Some ''$0 - $900,000 (0.8%)'') =
    Inr (Some 0, Some (Fin 900000), Some (4 / 5))"
  by (simp add: extract_eval)

lemma cell_0_250k: "extract_fee_range (Some ''$0 - $250,000 (1.5%)'') =
    Inr (Some 0, Some (Fin 250000), Some (3 / 2))"
  by (simp add: extract_eval)

lemma cell_250k_500k: "extract_fee_range (Some ''$250,000 - $500,000 (1.2%)'') =
    Inr (Some 250000, Some (Fin 500000), Some (6 / 5))"
  by (simp add: extract_eval)

lemma cell_600k_plus: "extract_fee_range (Some ''$600,000+ (1.0%)'') =
    Inr (Some 600000, Some PInf, Some 1)"
  by (simp add: extract_eval)

text \<open>
  On the row with the cells \<^verbatim>\<open>$0 - $500,000 (1.2%)\<close>, \<^verbatim>\<open>$500,000+ (1.0%)\<close>,
  \<^verbatim>\<open>$0 - $900,000 (0.8%)\<close> the first script returns one product and the step-3 script
  three.
\<close>

theorem C10_segmenters_differ_counterexample:
  "identify_products
     \<lparr>has_flat_fee = 0, flat_fee_value = None,
      thresholds = [Some ''$0 - $500,000 (1.2%)'', Some ''$500,000+ (1.0%)'',
                    Some ''$0 - $900,000 (0.8%)'']\<rparr>
   = Inr (1, [Tiered [\<lparr>lower = 0, upper = Fin 500000, fee = 6 / 5, tier_index = None\<rparr>,
                      \<lparr>lower = 500000, upper = PInf, fee = 1, tier_index = None\<rparr>,
                      \<lparr>lower = 0, upper = Fin 900000, fee = 4 / 5, tier_index = None\<rparr>] 0]) \<and>
   identify_products_step3
     \<lparr>has_flat_fee = 0, flat_fee_value = None,
      thresholds = [Some ''$0 - $500,000 (1.2%)'', Some ''$500,000+ (1.0%)'',
                    Some ''$0 - $900,000 (0.8%)'']\<rparr>
   = Inr (3, [Tiered [\<lparr>lower = 0, upper = Fin 900000, fee = 4 / 5, tier_index = Some 2\<rparr>] 1,
              Tiered [\<lparr>lower = 500000, upper = PInf, fee = 1, tier_index = Some 1\<rparr>] 2,
              Tiered [\<lparr>lower = 0, upper = Fin 500000, fee = 6 / 5, tier_index = Some 0\<rparr>] 0])"
  by (simp add: identify_products_def identify_products_step3_def extract_fee_range_step3_eq
      cell_0_500k cell_500k_plus cell_0_900k segment_eval)

theorem C10_segmenters_agree_witness:
  "extract_columns (take 8 [Some ''$0 - $250,000 (1.5%)'', Some ''$250,000 - $500,000 (1.2%)'',
                    Some ''N/A'', Some ''$600,000+ (1.0%)''])
     = Inr [Some (Some 0, Some (Fin 250000), Some (3 / 2)),
            Some (Some 250000, Some (Fin 500000), Some (6 / 5)), None,
            Some (Some 600000, Some PInf, Some 1)] \<and>
   list_all moderate (retained [Some (Some 0, Some (Fin 250000), Some (3 / 2)),
            Some (Some 250000, Some (Fin 500000), Some (6 / 5)), None,
            Some (Some 600000, Some PInf, Some 1)]) \<and>
   sorted (map lower (retained [Some (Some 0, Some (Fin 250000), Some (3 / 2)),
            Some (Some 250000, Some (Fin 500000), Some (6 / 5)), None,
            Some (Some 600000, Some PInf, Some 1)])) \<and>
   clear_gaps (retained [Some (Some 0, Some (Fin 250000), Some (3 / 2)),
            Some (Some 250000, Some (Fin 500000), Some (6 / 5)), None,
            Some (Some 600000, Some PInf, Some 1)]) \<and>
   (\<exists>n ps ps'.
      identify_products
        \<lparr>has_flat_fee = 1, flat_fee_value = Some 2,
         thresholds = [Some ''$0 - $250,000 (1.5%)'', Some ''$250,000 - $500,000 (1.2%)'',
                       Some ''N/A'', Some ''$600,000+ (1.0%)'']\<rparr> = Inr (n, ps) \<and>
      identify_products_step3
        \<lparr>has_flat_fee = 1, flat_fee_value = Some 2,
         thresholds = [Some ''$0 - $250,000 (1.5%)'', Some ''$250,000 - $500,000 (1.2%)'',
                       Some ''N/A'', Some ''$600,000+ (1.0%)'']\<rparr> = Inr (n, ps') \<and>
      map strip_index ps = map strip_index ps')"
proof -
  let ?cells = "[Some ''$0 - $250,000 (1.5%)'', Some ''$250,000 - $500,000 (1.2%)'',
                 Some ''N/A'', Some ''$600,000+ (1.0%)'']"
  let ?cols = "[Some (Some 0, Some (Fin 250000), Some (3 / 2)),
            Some (Some 250000, Some (Fin 500000), Some (6 / 5)), None,
            Some (Some 600000, Some PInf, Some 1)]"
  let ?r = "\<lparr>has_flat_fee = 1, flat_fee_value = Some 2, thresholds = ?cells\<rparr>"
  have h1: "extract_columns (take 8 ?cells) = Inr ?cols"
    by (simp add: cell_0_250k cell_250k_500k cell_600k_plus)
  have h1': "extract_columns (take 8 (thresholds ?r)) = Inr ?cols" using h1 by simp
  have h2: "has_flat_fee ?r = 1 \<longrightarrow> flat_fee_value ?r \<noteq> None" by simp
  have h3: "list_all moderate (retained ?cols)" by (simp add: mk_tier_def moderate_def)
  have h4: "sorted (map lower (retained ?cols))" by (simp add: mk_tier_def)
  have h5: "clear_gaps (retained ?cols)" by (simp add: mk_tier_def far_apart_def)
  show ?thesis
    using C10_segmenters_agree_on_chained_rows [OF h1' h2 h3 h4 h5] h1 h3 h4 h5 by blast
qed

end
